theory Spec2Isabelle
  imports Main
begin

section \<open>Python strings\<close>

text \<open>
  A Python \<open>str\<close> is a sequence of Unicode code points. The child's output is opened in
  text mode, so every line the program handles is a \<open>str\<close>; it is modelled as the list of
  its code points. \<open>asc\<close> turns an ASCII literal into such a list.
\<close>

type_synonym pystr = "nat list"

definition asc :: "string \<Rightarrow> pystr" where
  "asc s = map of_char s"

text \<open>
  \<open>str.rstrip()\<close> with no argument removes the trailing characters for which
  \<open>str.isspace\<close> holds: TAB..CR, FS..US, SPACE, NEL, NBSP, OGHAM SPACE, EN QUAD..HAIR
  SPACE, LINE and PARAGRAPH SEPARATOR, NARROW NBSP, MEDIUM MATHEMATICAL SPACE and
  IDEOGRAPHIC SPACE.
\<close>

definition is_space :: "nat \<Rightarrow> bool" where
  "is_space c \<longleftrightarrow>
     (9 \<le> c \<and> c \<le> 13) \<or> (28 \<le> c \<and> c \<le> 32) \<or> c = 133 \<or> c = 160 \<or> c = 5760 \<or>
     (8192 \<le> c \<and> c \<le> 8202) \<or> c = 8232 \<or> c = 8233 \<or> c = 8239 \<or> c = 8287 \<or> c = 12288"

definition rstrip :: "pystr \<Rightarrow> pystr" where
  "rstrip s = rev (dropWhile is_space (rev s))"

section \<open>The ANSI escape pattern\<close>

text \<open>
  \<open>ANSI_ESCAPE_PATTERN = re.compile(r'\x1b\[[0-9;]*m')\<close>: ESC (27), \<open>[\<close> (91), any
  number of ASCII digits (48..57) and semicolons (59), then \<open>m\<close> (109). Since \<open>m\<close> is not
  in the class, the greedy star never has to give a character back: the pattern matches
  at a position exactly when the longest run of class characters after \<open>ESC [\<close> is
  followed by \<open>m\<close>. \<open>match_ansi\<close> returns what follows the match at the head of the string.
\<close>

definition is_param :: "nat \<Rightarrow> bool" where
  "is_param c \<longleftrightarrow> (48 \<le> c \<and> c \<le> 57) \<or> c = 59"

fun match_ansi :: "pystr \<Rightarrow> pystr option" where
  "match_ansi (a # b # rest) =
     (if a = 27 \<and> b = 91
      then (case dropWhile is_param rest of
              [] \<Rightarrow> None
            | m # rest' \<Rightarrow> if m = 109 then Some rest' else None)
      else None)"
| "match_ansi _ = None"

lemma match_ansi_shorter: "match_ansi xs = Some r \<Longrightarrow> length r < length xs"
proof (cases xs rule: match_ansi.cases)
  case (1 a b rest)
  assume m: "match_ansi xs = Some r"
  have "length (dropWhile is_param rest) \<le> length rest"
    by (rule length_dropWhile_le)
  with 1 m show ?thesis
    by (auto split: if_splits list.splits)
qed simp_all

text \<open>
  \<open>ANSI_ESCAPE_PATTERN.sub('', s)\<close>: one pass from the left; where the pattern matches,
  the match is dropped and the scan goes on after it, elsewhere the character is kept.
\<close>

function ansi_sub :: "pystr \<Rightarrow> pystr" where
  "ansi_sub [] = []"
| "ansi_sub (c # cs) =
     (case match_ansi (c # cs) of
        Some rest \<Rightarrow> ansi_sub rest
      | None \<Rightarrow> c # ansi_sub cs)"
  by pat_completeness auto
termination
  by (relation "measure length") (auto dest: match_ansi_shorter)

text \<open>\<open>clean_line = self.ANSI_ESCAPE_PATTERN.sub('', line.rstrip())\<close> in \<open>_read_output\<close>.\<close>

definition clean_line :: "pystr \<Rightarrow> pystr" where
  "clean_line line = ansi_sub (rstrip line)"

section \<open>Texts of the user interface\<close>

text \<open>
  The literal texts of the source, as code points. The source writes them in Chinese;
  each is given with its meaning.
\<close>

definition separator :: pystr where
  \<comment> \<open>\<open>"=" * 50\<close>\<close>
  "separator = replicate 50 61"

definition level_info :: pystr where
  "level_info = asc ''info''"

definition level_error :: pystr where
  "level_error = asc ''error''"

definition tag_normal :: pystr where
  "tag_normal = asc ''normal''"

definition tag_error :: pystr where
  "tag_error = asc ''error''"

definition title_warning :: pystr where
  \<comment> \<open>"warning"\<close>
  "title_warning = [35686, 21578]"

definition title_error :: pystr where
  \<comment> \<open>"error"\<close>
  "title_error = [38169, 35823]"

definition text_already_running :: pystr where
  \<comment> \<open>"the recording is already running!"\<close>
  "text_already_running = [24405, 21046, 24050, 22312, 36816, 34892, 20013, 65281]"

definition text_not_running :: pystr where
  \<comment> \<open>"there is no running recording process!"\<close>
  "text_not_running =
     [27809, 26377, 27491, 22312, 36816, 34892, 30340, 24405, 21046, 36827, 31243, 65281]"

definition text_start_failed :: pystr where
  \<comment> \<open>"starting the recording failed: "\<close>
  "text_start_failed = [21551, 21160, 24405, 21046, 22833, 36133, 58, 32]"

definition text_stop_failed :: pystr where
  \<comment> \<open>"stopping the recording failed: "\<close>
  "text_stop_failed = [20572, 27490, 24405, 21046, 22833, 36133, 58, 32]"

definition text_read_error :: pystr where
  \<comment> \<open>"error reading the output: "\<close>
  "text_read_error = [35835, 21462, 36755, 20986, 38169, 35823, 58, 32]"

definition text_started :: pystr where
  \<comment> \<open>"] the recording process has started", after the time stamp\<close>
  "text_started = [93, 32, 24405, 21046, 36827, 31243, 24050, 21551, 21160]"

definition text_python :: pystr where
  "text_python = asc ''Python: ''"

definition text_workdir :: pystr where
  \<comment> \<open>"working directory: "\<close>
  "text_workdir = [24037, 20316, 30446, 24405, 58, 32]"

definition text_stopping :: pystr where
  \<comment> \<open>"] stopping the recording...", after the time stamp\<close>
  "text_stopping = [93, 32, 27491, 22312, 20572, 27490, 24405, 21046, 46, 46, 46]"

definition text_forced :: pystr where
  \<comment> \<open>"the process was forcibly terminated"\<close>
  "text_forced = [36827, 31243, 24050, 24378, 21046, 32456, 27490]"

definition text_stopped :: pystr where
  \<comment> \<open>"] the recording process has stopped", after the time stamp\<close>
  "text_stopped = [93, 32, 24405, 21046, 36827, 31243, 24050, 20572, 27490]"

definition text_ended :: pystr where
  \<comment> \<open>"] the recording process has ended", after the time stamp\<close>
  "text_ended = [93, 32, 24405, 21046, 36827, 31243, 24050, 32467, 26463]"

definition label_running :: pystr where
  \<comment> \<open>green circle, "running"\<close>
  "label_running = [128994, 32, 36816, 34892, 20013]"

definition label_not_running :: pystr where
  \<comment> \<open>red circle, "not running"\<close>
  "label_not_running = [128308, 32, 26410, 36816, 34892]"

definition fg_running :: pystr where
  "fg_running = asc ''#2e7d32''"

definition fg_not_running :: pystr where
  "fg_not_running = asc ''#d32f2f''"

definition tray_enabled :: pystr where
  \<comment> \<open>"enabled"\<close>
  "tray_enabled = [21551, 29992]"

definition tray_not_started :: pystr where
  \<comment> \<open>"not started"\<close>
  "tray_not_started = [26410, 21551, 21160]"

definition bar_tail :: pystr where
  \<comment> \<open>" | loop check: 120 s | format: ts -> mp4 | tray: "\<close>
  "bar_tail =
     [32, 124, 32, 24490, 29615, 26816, 27979, 58, 32, 49, 50, 48, 31186, 32, 124, 32,
      26684, 24335, 58, 32, 116, 115, 32, 8594, 32, 109, 112, 52, 32, 124, 32,
      25176, 30424, 58, 32]"

definition bar_running :: pystr where
  \<comment> \<open>"state: running (PID: "\<close>
  "bar_running = [29366, 24577, 65306, 36816, 34892, 20013, 32, 40, 80, 73, 68, 58, 32]"

definition bar_not_running :: pystr where
  \<comment> \<open>"state: not running"\<close>
  "bar_not_running = [29366, 24577, 65306, 26410, 36816, 34892]"

definition bar_ready :: pystr where
  \<comment> \<open>"ready", the status bar's first text\<close>
  "bar_ready = [23601, 32490]"

text \<open>The decimal digits of an integer, as the f-string prints \<open>self.process_pid\<close>.\<close>

fun digits :: "nat \<Rightarrow> pystr" where
  "digits n = (if n < 10 then [48 + n] else digits (n div 10) @ [48 + n mod 10])"

declare digits.simps [simp del]

definition str_int :: "int \<Rightarrow> pystr" where
  "str_int i = (if i < 0 then 45 # digits (nat (- i)) else digits (nat i))"

section \<open>The recorder and its environment\<close>

text \<open>
  \<open>popen\<close> is the handle \<open>subprocess.Popen\<close> returns, with the child's process id.
  An \<open>event\<close> is a call the recorder makes on the operating system, on a dialog, on
  a status widget or on its own \<open>_log\<close> (with the message and the level passed);
  \<open>trace\<close> keeps them in the order made. A \<open>callback\<close> is what
  \<open>self.root.after(0, ...)\<close> hands to the control thread.
\<close>

datatype popen = Popen (pid: int)

datatype thread = Thread_read_output

datatype callback =
    Call_process_ended
  | Call_log pystr pystr

datatype event =
    Popen_call "pystr list" pystr
  | Terminate_call popen
  | Wait_call popen nat
  | Kill_call popen
  | Showwarning pystr pystr
  | Showerror pystr pystr
  | Label_config pystr pystr
  | Status_var_set pystr
  | Log_call pystr pystr
  | Thread_start thread

text \<open>
  The fields of \<open>LiveRecorderGUI\<close> that the supervising code reads or writes, the
  state of the widgets it drives, the queue of \<open>root.after\<close>, the number of clock
  readings so far and the trace. \<open>system_tray\<close> is \<open>None\<close> without a tray and
  otherwise holds the tray's \<open>running\<close> flag.
\<close>

record gui =
  script_dir :: pystr
  process :: "popen option"
  process_pid :: "int option"
  output_thread :: "thread option"
  running :: bool
  system_tray :: "bool option"
  start_btn_disabled :: bool
  stop_btn_disabled :: bool
  status_label :: "pystr \<times> pystr"
  status_var :: pystr
  log_text :: "(pystr \<times> pystr) list"
  after_queue :: "callback list"
  ticks :: nat
  trace :: "event list"

text \<open>
  What the world answers during one operation: the platform and the interpreter,
  \<open>os.path.join\<close> and \<open>os.path.exists\<close>, the clock (the text of
  \<open>datetime.now().strftime(...)\<close> at each reading), and the outcome of each call on the
  child. A call that raises carries \<open>str(e)\<close>. The calls on the child (\<open>Popen\<close>,
  \<open>terminate\<close>, \<open>wait\<close>, \<open>kill\<close>, \<open>readline\<close>) are the ones that may raise into
  the \<open>except\<close> branches of the source; calls on the widgets and the start of the
  thread return.
\<close>

datatype wait_outcome =
    Exited int
  | Timeout_expired
  | Wait_raises pystr

record env =
  platform :: pystr
  sys_executable :: pystr
  path_join :: "pystr \<Rightarrow> pystr list \<Rightarrow> pystr"
  path_exists :: "pystr \<Rightarrow> bool"
  clock :: "nat \<Rightarrow> pystr"
  popen_result :: "pystr + popen"
  terminate_result :: "pystr option"
  wait_result :: wait_outcome
  kill_result :: "pystr option"

text \<open>
  The recorder as \<open>__init__\<close> and \<open>_setup_ui\<close> leave it, before \<open>_load_config\<close>
  writes its line to the log: no process, the stop button disabled, the label
  "not running", the status bar "ready".
\<close>

definition init_gui :: "pystr \<Rightarrow> gui" where
  "init_gui dir =
     \<lparr>script_dir = dir, process = None, process_pid = None, output_thread = None,
      running = False, system_tray = None, start_btn_disabled = False,
      stop_btn_disabled = True, status_label = (label_not_running, fg_not_running),
      status_var = bar_ready @ bar_tail @ tray_enabled, log_text = [], after_queue = [],
      ticks = 0, trace = []\<rparr>"

subsection \<open>Small steps\<close>

definition emit :: "event \<Rightarrow> gui \<Rightarrow> gui" where
  "emit ev s = s\<lparr>trace := trace s @ [ev]\<rparr>"

definition get_timestamp :: "env \<Rightarrow> gui \<Rightarrow> pystr \<times> gui" where
  "get_timestamp e s = (clock e (ticks s), s\<lparr>ticks := Suc (ticks s)\<rparr>)"

text \<open>\<open>_log(message, level)\<close>: the text shown and its tag, appended to the log widget.\<close>

definition display_text :: "pystr \<Rightarrow> pystr \<Rightarrow> pystr \<Rightarrow> pystr" where
  "display_text timestamp message level =
     (if level = level_error
      then asc ''['' @ timestamp @ asc ''] [ERROR] '' @ message @ [10]
      else asc ''['' @ timestamp @ asc ''] '' @ message @ [10])"

definition tag_of :: "pystr \<Rightarrow> pystr" where
  "tag_of level = (if level = level_error then tag_error else tag_normal)"

definition log :: "env \<Rightarrow> pystr \<Rightarrow> pystr \<Rightarrow> gui \<Rightarrow> gui" where
  "log e message level s =
     (let (timestamp, s1) = get_timestamp e s;
          entry = (display_text timestamp message level, tag_of level)
      in emit (Log_call message level) (s1\<lparr>log_text := log_text s1 @ [entry]\<rparr>))"

text \<open>\<open>self._log(f"[{self._get_timestamp()}] ...")\<close>: the argument reads the clock first.\<close>

definition log_stamped :: "env \<Rightarrow> pystr \<Rightarrow> gui \<Rightarrow> gui" where
  "log_stamped e msg s =
     (let (timestamp, s1) = get_timestamp e s
      in log e (asc ''['' @ timestamp @ msg) level_info s1)"

definition update_status_bar :: "gui \<Rightarrow> gui" where
  "update_status_bar s =
     (let tray_status = (if system_tray s = Some True then tray_enabled else tray_not_started);
          status_text =
            (case process_pid s of
               Some p \<Rightarrow> bar_running @ str_int p @ [41] @ bar_tail @ tray_status
             | None \<Rightarrow> bar_not_running @ bar_tail @ tray_status)
      in emit (Status_var_set status_text) (s\<lparr>status_var := status_text\<rparr>))"

definition set_label :: "pystr \<Rightarrow> pystr \<Rightarrow> gui \<Rightarrow> gui" where
  "set_label txt fg s = emit (Label_config txt fg) (s\<lparr>status_label := (txt, fg)\<rparr>)"

subsection \<open>\<open>start_recording\<close>\<close>

text \<open>
  The interpreter \<open>start_recording\<close> launches: on \<open>win32\<close> the project's
  \<open>venv\Scripts\python.exe\<close> when that file exists, \<open>sys.executable\<close> otherwise; on
  every other platform \<open>sys.executable\<close>.
\<close>

definition venv_python :: "env \<Rightarrow> gui \<Rightarrow> pystr" where
  "venv_python e s =
     path_join e (script_dir s) [asc ''venv'', asc ''Scripts'', asc ''python.exe'']"

definition python_exe :: "env \<Rightarrow> gui \<Rightarrow> pystr" where
  "python_exe e s =
     (if platform e = asc ''win32''
      then (if \<not> path_exists e (venv_python e s) then sys_executable e
            else venv_python e s)
      else sys_executable e)"

definition start_recording :: "env \<Rightarrow> gui \<Rightarrow> gui" where
  "start_recording e s =
     (if process s \<noteq> None
      then emit (Showwarning title_warning text_already_running) s
      else
        let exe = python_exe e s;
            main_py = path_join e (script_dir s) [asc ''main.py''];
            s = emit (Popen_call [exe, main_py] (script_dir s)) s
        in case popen_result e of
             Inl err \<Rightarrow>
               emit (Showerror title_error (text_start_failed @ err))
                 (log e (text_start_failed @ err) level_error s)
           | Inr p \<Rightarrow>
               let s = s\<lparr>process := Some p\<rparr>;
                   s = s\<lparr>process_pid := Some (pid p)\<rparr>;
                   s = s\<lparr>running := True\<rparr>;
                   s = s\<lparr>start_btn_disabled := True\<rparr>;
                   s = s\<lparr>stop_btn_disabled := False\<rparr>;
                   s = set_label label_running fg_running s;
                   s = update_status_bar s;
                   s = emit (Thread_start Thread_read_output)
                         (s\<lparr>output_thread := Some Thread_read_output\<rparr>);
                   s = log e separator level_info s;
                   s = log_stamped e text_started s;
                   s = log e (text_python @ exe) level_info s;
                   s = log e (text_workdir @ script_dir s) level_info s
               in log e separator level_info s)"

subsection \<open>\<open>stop_recording\<close>\<close>

text \<open>
  The three parts of \<open>stop_recording\<close> on a process \<open>p\<close>: \<open>stop_signal\<close> announces
  the stop and calls \<open>terminate\<close>; \<open>stop_finish\<close> is the code after the wait (the
  fields cleared, the buttons and the label reset, the closing lines);
  \<open>stop_failed\<close> is the \<open>except Exception\<close> branch.
\<close>

definition stop_signal :: "env \<Rightarrow> popen \<Rightarrow> gui \<Rightarrow> gui" where
  "stop_signal e p s =
     (let s = log e separator level_info s;
          s = log_stamped e text_stopping s
      in emit (Terminate_call p) s)"

definition stop_finish :: "env \<Rightarrow> gui \<Rightarrow> gui" where
  "stop_finish e s =
     (let s = s\<lparr>running := False\<rparr>;
          s = s\<lparr>process := None\<rparr>;
          s = s\<lparr>process_pid := None\<rparr>;
          s = s\<lparr>start_btn_disabled := False\<rparr>;
          s = s\<lparr>stop_btn_disabled := True\<rparr>;
          s = set_label label_not_running fg_not_running s;
          s = update_status_bar s;
          s = log_stamped e text_stopped s
      in log e separator level_info s)"

definition stop_failed :: "env \<Rightarrow> pystr \<Rightarrow> gui \<Rightarrow> gui" where
  "stop_failed e err s =
     emit (Showerror title_error (text_stop_failed @ err))
       (log e (text_stop_failed @ err) level_error s)"

definition stop_await :: "env \<Rightarrow> popen \<Rightarrow> gui \<Rightarrow> gui" where
  "stop_await e p s =
     (case terminate_result e of
        Some err \<Rightarrow> stop_failed e err s
      | None \<Rightarrow>
          (let s = emit (Wait_call p 3) s
           in (case wait_result e of
                 Exited code \<Rightarrow> stop_finish e s
               | Wait_raises err \<Rightarrow> stop_failed e err s
               | Timeout_expired \<Rightarrow>
                   (let s = emit (Kill_call p) s
                    in (case kill_result e of
                          Some err \<Rightarrow> stop_failed e err s
                        | None \<Rightarrow> stop_finish e (log e text_forced level_info s))))))"

definition stop_recording :: "env \<Rightarrow> gui \<Rightarrow> gui" where
  "stop_recording e s =
     (case process s of
        None \<Rightarrow> emit (Showwarning title_warning text_not_running) s
      | Some p \<Rightarrow> stop_await e p (stop_signal e p s))"

subsection \<open>\<open>_process_ended\<close> and \<open>_read_output\<close>\<close>

definition process_ended :: "env \<Rightarrow> gui \<Rightarrow> gui" where
  "process_ended e s =
     (let s = s\<lparr>running := False\<rparr>;
          s = s\<lparr>process := None\<rparr>;
          s = s\<lparr>process_pid := None\<rparr>;
          s = s\<lparr>start_btn_disabled := False\<rparr>;
          s = s\<lparr>stop_btn_disabled := True\<rparr>;
          s = set_label label_not_running fg_not_running s;
          s = update_status_bar s;
          s = log e separator level_info s;
          s = log_stamped e text_ended s
      in log e separator level_info s)"

text \<open>
  One turn of the loop of \<open>_read_output\<close> meets one \<open>read_event\<close>: \<open>readline\<close> returns
  a line (with what \<open>poll()\<close> would answer at that moment, read only when the line is
  empty), or the body raises. The loop runs on the relay's thread against the fields
  \<open>running\<close> and \<open>process\<close> as the control thread left them. The result is the state
  and whether the loop has ended; when the events run out with the loop still going, the
  thread is waiting in \<open>readline\<close>.
\<close>

datatype read_event =
    Readline pystr "int option"
  | Read_raises pystr

definition after :: "callback \<Rightarrow> gui \<Rightarrow> gui" where
  "after cb s = s\<lparr>after_queue := after_queue s @ [cb]\<rparr>"

fun read_output :: "read_event list \<Rightarrow> gui \<Rightarrow> gui \<times> bool" where
  "read_output [] s = (s, \<not> (running s \<and> process s \<noteq> None))"
| "read_output (ev # evs) s =
     (if \<not> (running s \<and> process s \<noteq> None) then (s, True)
      else case ev of
             Read_raises err \<Rightarrow> (after (Call_log (text_read_error @ err) level_error) s, True)
           | Readline line poll \<Rightarrow>
               if line = []
               then (if poll \<noteq> None then (after Call_process_ended s, True)
                     else read_output evs s)
               else read_output evs (after (Call_log (clean_line line) level_info) s))"

text \<open>The control thread runs the queued callbacks in the order they were queued.\<close>

fun run_callback :: "env \<Rightarrow> callback \<Rightarrow> gui \<Rightarrow> gui" where
  "run_callback e Call_process_ended s = process_ended e s"
| "run_callback e (Call_log message level) s = log e message level s"

definition mainloop :: "env \<Rightarrow> gui \<Rightarrow> gui" where
  "mainloop e s = fold (run_callback e) (after_queue s) (s\<lparr>after_queue := []\<rparr>)"

section \<open>Observations\<close>

text \<open>
  What an operation adds to the trace, and what an observer of the status label sees over
  a run: the label's text at the start and the text of every \<open>status_label.config\<close>
  since.
\<close>

definition new_events :: "gui \<Rightarrow> gui \<Rightarrow> event list" where
  "new_events s s' = drop (length (trace s)) (trace s')"

fun label_texts :: "event list \<Rightarrow> pystr list" where
  "label_texts [] = []"
| "label_texts (Label_config txt fg # evs) = txt # label_texts evs"
| "label_texts (ev # evs) = label_texts evs"

definition observed_status :: "gui \<Rightarrow> gui \<Rightarrow> pystr list" where
  "observed_status s s' = fst (status_label s) # label_texts (new_events s s')"

fun is_kill :: "event \<Rightarrow> bool" where
  "is_kill (Kill_call p) = True"
| "is_kill ev = False"

fun is_terminate :: "event \<Rightarrow> bool" where
  "is_terminate (Terminate_call p) = True"
| "is_terminate ev = False"

fun is_popen :: "event \<Rightarrow> bool" where
  "is_popen (Popen_call argv cwd) = True"
| "is_popen ev = False"

fun is_dialog :: "event \<Rightarrow> bool" where
  "is_dialog (Showwarning title msg) = True"
| "is_dialog (Showerror title msg) = True"
| "is_dialog ev = False"

text \<open>
  The process handle, the stored process id and the running flag agree: all set or all
  cleared.
\<close>

definition consistent :: "gui \<Rightarrow> bool" where
  "consistent s \<longleftrightarrow>
     (process s \<noteq> None \<and> process_pid s \<noteq> None \<and> running s) \<or>
     (process s = None \<and> process_pid s = None \<and> \<not> running s)"

text \<open>
  The control thread's operations, each with the answers of the world during it, and a
  run of them: the two buttons, a stretch of the relay's loop, and the dispatch of the
  queued callbacks.
\<close>

datatype operation =
    Start
  | Stop
  | Relay "read_event list"
  | Dispatch

fun step :: "env \<times> operation \<Rightarrow> gui \<Rightarrow> gui" where
  "step (e, Start) s = start_recording e s"
| "step (e, Stop) s = stop_recording e s"
| "step (e, Relay evs) s = fst (read_output evs s)"
| "step (e, Dispatch) s = mainloop e s"

definition run :: "(env \<times> operation) list \<Rightarrow> gui \<Rightarrow> gui" where
  "run ops s = fold step ops s"

text \<open>
  A turn of the relay's loop after which the loop goes on: a line, or an empty read
  while the child is still alive. \<open>relayed\<close> lists the callbacks such turns queue.
\<close>

fun keeps_reading :: "read_event \<Rightarrow> bool" where
  "keeps_reading (Readline line poll) = (line \<noteq> [] \<or> poll = None)"
| "keeps_reading (Read_raises err) = False"

fun relayed :: "read_event list \<Rightarrow> pystr list" where
  "relayed [] = []"
| "relayed (Readline line poll # evs) =
     (if line = [] then relayed evs else clean_line line # relayed evs)"
| "relayed (Read_raises err # evs) = relayed evs"

text \<open>
  Lines built from colour sequences and text: \<open>SGR ps\<close> stands for
  \<open>ESC [ ps m\<close>, \<open>Plain t\<close> for the text \<open>t\<close>.
\<close>

datatype chunk =
    Plain pystr
  | SGR pystr

fun render :: "chunk \<Rightarrow> pystr" where
  "render (Plain t) = t"
| "render (SGR ps) = [27, 91] @ ps @ [109]"

fun plain :: "chunk \<Rightarrow> pystr" where
  "plain (Plain t) = t"
| "plain (SGR ps) = []"

fun well_formed :: "chunk \<Rightarrow> bool" where
  "well_formed (Plain t) = (27 \<notin> set t)"
| "well_formed (SGR ps) = list_all is_param ps"

text \<open>Two worlds for concrete runs: a Linux host and a Windows host.\<close>

definition linux_env :: env where
  "linux_env =
     \<lparr>platform = asc ''linux'', sys_executable = asc ''/usr/bin/python3'',
      path_join = (\<lambda>d ps. concat (d # map (\<lambda>p. 47 # p) ps)),
      path_exists = (\<lambda>p. True),
      clock = (\<lambda>n. asc ''2024-01-01 00:00:0'' @ [48 + n mod 10]),
      popen_result = Inr (Popen 4242), terminate_result = None,
      wait_result = Exited 0, kill_result = None\<rparr>"

definition win_env :: env where
  "win_env =
     \<lparr>platform = asc ''win32'', sys_executable = asc ''C:/Python/python.exe'',
      path_join = (\<lambda>d ps. concat (d # map (\<lambda>p. 92 # p) ps)),
      path_exists = (\<lambda>p. True),
      clock = (\<lambda>n. asc ''2024-01-01 00:00:0'' @ [48 + n mod 10]),
      popen_result = Inr (Popen 4242), terminate_result = None,
      wait_result = Timeout_expired, kill_result = None\<rparr>"


definition app_dir :: pystr where
  "app_dir = asc ''/app''"

definition error_chunks :: "chunk list" where
  \<comment> \<open>the line \<open>"\x1b[31mERROR\x1b[0m"\<close>\<close>
  "error_chunks = [SGR (asc ''31''), Plain (asc ''ERROR''), SGR (asc ''0'')]"

definition sample_reads :: "read_event list" where
  \<comment> \<open>a line of output, then an empty read while the child is alive\<close>
  "sample_reads = [Readline (asc ''hello'' @ [10]) None, Readline [] None]"

definition recording_gui :: gui where
  \<comment> \<open>the recorder on the Linux host after a first \<open>start_recording\<close>\<close>
  "recording_gui = start_recording linux_env (init_gui app_dir)"

definition stopping_gui :: gui where
  \<comment> \<open>the same recorder inside a first \<open>stop_recording\<close>, \<open>terminate\<close> just called\<close>
  "stopping_gui = stop_signal linux_env (Popen 4242) recording_gui"

text \<open>
  A stop whose calls on the child all return: \<open>terminate\<close> returns, and \<open>wait\<close>
  either returns or times out with \<open>kill\<close> returning.
\<close>

definition stop_completes :: "env \<Rightarrow> bool" where
  "stop_completes e \<longleftrightarrow>
     terminate_result e = None \<and>
     (case wait_result e of
        Exited code \<Rightarrow> True
      | Timeout_expired \<Rightarrow> kill_result e = None
      | Wait_raises err \<Rightarrow> False)"

definition not_running_bar :: "gui \<Rightarrow> pystr" where
  \<comment> \<open>the status bar's text without a process\<close>
  "not_running_bar s =
     bar_not_running @ bar_tail @
     (if system_tray s = Some True then tray_enabled else tray_not_started)"

definition two_labels :: "gui \<Rightarrow> bool" where
  \<comment> \<open>every text the status label was given is one of the source's two\<close>
  "two_labels s \<longleftrightarrow> set (label_texts (trace s)) \<subseteq> {label_not_running, label_running}"


fun is_warning :: "event \<Rightarrow> bool" where
  "is_warning (Showwarning title msg) = True"
| "is_warning ev = False"

fun is_error_log :: "callback \<Rightarrow> bool" where
  "is_error_log (Call_log message level) = (level = level_error)"
| "is_error_log Call_process_ended = False"

definition content_log :: "pystr \<Rightarrow> callback" where
  \<comment> \<open>the callback the relay queues for a cleaned line\<close>
  "content_log l = Call_log l level_info"

section \<open>Basic facts\<close>

lemmas steps =
  log_def log_stamped_def get_timestamp_def emit_def set_label_def update_status_bar_def
  Let_def

lemmas operations =
  start_recording_def stop_recording_def stop_await_def stop_signal_def stop_finish_def
  stop_failed_def process_ended_def python_exe_def venv_python_def

lemma recording_gui_process: "process recording_gui = Some (Popen 4242)"
  by (simp add: recording_gui_def operations steps init_gui_def linux_env_def)

lemma init_gui_process: "process (init_gui dir) = None"
  by (simp add: init_gui_def)

lemma recording_gui_running: "running recording_gui"
  by (simp add: recording_gui_def operations steps init_gui_def linux_env_def)

lemma recording_gui_queue: "after_queue recording_gui = []"
  by (simp add: recording_gui_def operations steps init_gui_def linux_env_def)

lemma sample_reads_keep: "list_all keeps_reading sample_reads"
  by (simp add: sample_reads_def asc_def)

section \<open>Start while a process is active\<close>

text \<open>
  C1. Whenever a process handle is stored, \<open>start_recording\<close> only shows the warning
  "the recording is already running": it makes no \<open>Popen\<close> call and leaves the handle,
  the process id, the running flag and every other field as they were.
\<close>

theorem start_recording_already_running:
  assumes "process s = Some p"
  shows "start_recording e s = emit (Showwarning title_warning text_already_running) s
       \<and> new_events s (start_recording e s) = [Showwarning title_warning text_already_running]
       \<and> filter is_popen (new_events s (start_recording e s)) = []
       \<and> process (start_recording e s) = Some p
       \<and> process_pid (start_recording e s) = process_pid s
       \<and> running (start_recording e s) = running s
       \<and> status_label (start_recording e s) = status_label s"
  using assms by (simp add: start_recording_def emit_def new_events_def)

theorem start_recording_already_running_witness:
  "process recording_gui = Some (Popen 4242)
   \<and> start_recording linux_env recording_gui =
       emit (Showwarning title_warning text_already_running) recording_gui
   \<and> new_events recording_gui (start_recording linux_env recording_gui) =
       [Showwarning title_warning text_already_running]
   \<and> filter is_popen (new_events recording_gui (start_recording linux_env recording_gui)) = []
   \<and> process (start_recording linux_env recording_gui) = Some (Popen 4242)
   \<and> process_pid (start_recording linux_env recording_gui) = process_pid recording_gui
   \<and> running (start_recording linux_env recording_gui) = running recording_gui
   \<and> status_label (start_recording linux_env recording_gui) = status_label recording_gui"
  using start_recording_already_running [OF recording_gui_process, of linux_env]
    recording_gui_process
  by blast

section \<open>Stop without a process\<close>

text \<open>
  C2. Whenever no process handle is stored, \<open>stop_recording\<close> only shows the warning
  "there is no running recording process": no \<open>terminate\<close> or \<open>kill\<close> is sent, nothing
  is written to the log, and the status label and every other field stay as they were.
\<close>

theorem stop_recording_not_running:
  assumes "process s = None"
  shows "stop_recording e s = emit (Showwarning title_warning text_not_running) s
       \<and> new_events s (stop_recording e s) = [Showwarning title_warning text_not_running]
       \<and> filter is_terminate (new_events s (stop_recording e s)) = []
       \<and> filter is_kill (new_events s (stop_recording e s)) = []
       \<and> log_text (stop_recording e s) = log_text s
       \<and> status_label (stop_recording e s) = status_label s
       \<and> status_var (stop_recording e s) = status_var s
       \<and> process (stop_recording e s) = None
       \<and> process_pid (stop_recording e s) = process_pid s
       \<and> running (stop_recording e s) = running s"
  using assms by (simp add: stop_recording_def emit_def new_events_def)

theorem stop_recording_not_running_witness:
  "process (init_gui app_dir) = None
   \<and> stop_recording linux_env (init_gui app_dir) =
       emit (Showwarning title_warning text_not_running) (init_gui app_dir)
   \<and> new_events (init_gui app_dir) (stop_recording linux_env (init_gui app_dir)) =
       [Showwarning title_warning text_not_running]
   \<and> filter is_terminate (new_events (init_gui app_dir) (stop_recording linux_env (init_gui app_dir))) = []
   \<and> filter is_kill (new_events (init_gui app_dir) (stop_recording linux_env (init_gui app_dir))) = []
   \<and> log_text (stop_recording linux_env (init_gui app_dir)) = log_text (init_gui app_dir)
   \<and> status_label (stop_recording linux_env (init_gui app_dir)) = status_label (init_gui app_dir)
   \<and> status_var (stop_recording linux_env (init_gui app_dir)) = status_var (init_gui app_dir)
   \<and> process (stop_recording linux_env (init_gui app_dir)) = None
   \<and> process_pid (stop_recording linux_env (init_gui app_dir)) = process_pid (init_gui app_dir)
   \<and> running (stop_recording linux_env (init_gui app_dir)) = running (init_gui app_dir)"
  using stop_recording_not_running [OF init_gui_process, of linux_env app_dir]
    init_gui_process [of app_dir]
  by blast

section \<open>Cleaning a line of output\<close>

lemma match_ansi_not_esc: "c \<noteq> 27 \<Longrightarrow> match_ansi (c # cs) = None"
  by (cases cs) simp_all

lemma ansi_sub_plain: "27 \<notin> set t \<Longrightarrow> ansi_sub (t @ rest) = t @ ansi_sub rest"
  by (induction t) (auto simp: match_ansi_not_esc)

lemma not_is_param_m: "\<not> is_param 109"
  by (simp add: is_param_def)

lemma match_ansi_sgr:
  assumes "list_all is_param ps"
  shows "match_ansi ([27, 91] @ ps @ [109] @ rest) = Some rest"
proof -
  have "dropWhile is_param (ps @ 109 # rest) = 109 # rest"
    using assms not_is_param_m by (simp add: dropWhile_append2 list_all_iff)
  then show ?thesis by simp
qed

lemma ansi_sub_sgr:
  "list_all is_param ps \<Longrightarrow> ansi_sub ([27, 91] @ ps @ [109] @ rest) = ansi_sub rest"
  using match_ansi_sgr [of ps rest] by simp

lemma ansi_sub_chunk:
  "well_formed c \<Longrightarrow> ansi_sub (render c @ rest) = plain c @ ansi_sub rest"
proof (cases c)
  case (Plain t)
  assume "well_formed c"
  with Plain show ?thesis by (simp add: ansi_sub_plain)
next
  case (SGR ps)
  assume "well_formed c"
  with SGR ansi_sub_sgr [of ps rest] show ?thesis by simp
qed

lemma ansi_sub_chunks:
  "list_all well_formed cs \<Longrightarrow>
   ansi_sub (concat (map render cs) @ rest) = concat (map plain cs) @ ansi_sub rest"
  by (induction cs) (simp_all add: ansi_sub_chunk)

lemma plain_no_esc: "well_formed c \<Longrightarrow> 27 \<notin> set (plain c)"
  by (cases c) simp_all

lemma rstrip_append_spaces:
  assumes "list_all is_space ws"
  shows "rstrip (body @ ws) = rstrip body"
proof -
  have "\<And>x. x \<in> set (rev ws) \<Longrightarrow> is_space x"
    using assms by (simp add: list_all_iff)
  then have "dropWhile is_space (rev ws @ rev body) = dropWhile is_space (rev body)"
    by (rule dropWhile_append2)
  then show ?thesis by (simp add: rstrip_def)
qed

lemma error_chunks_well_formed: "list_all well_formed error_chunks"
  by (simp add: error_chunks_def asc_def is_param_def)

lemma newline_is_space: "list_all is_space [10]"
  by (simp add: is_space_def)

lemma error_chunks_rstrip:
  "rstrip (concat (map render error_chunks)) = concat (map render error_chunks)"
  by (simp add: error_chunks_def rstrip_def is_space_def asc_def)

text \<open>
  C6, as the code has it. The claim as stated fails: the trailing whitespace is trimmed
  before the sequences are removed, so whitespace that stood before a final sequence
  stays at the end of the delivered line, and removing a sequence can bring the pieces of
  another one together.
\<close>

theorem clean_line_counterexample:
  "clean_line (asc ''ERROR '' @ [27, 91, 48, 109, 10]) = asc ''ERROR ''
   \<and> is_space (last (clean_line (asc ''ERROR '' @ [27, 91, 48, 109, 10])))
   \<and> clean_line [27, 91, 27, 91, 48, 109, 48, 109, 10] = [27, 91, 48, 109]"
  by (simp add: clean_line_def rstrip_def is_space_def is_param_def asc_def)

text \<open>
  C6, amended. A raw line made of text free of ESC and of colour sequences
  \<open>ESC [ ps m\<close> (\<open>ps\<close> digits and semicolons), followed by trailing whitespace, is
  delivered as the text alone: the relay queues exactly one \<open>_log\<close> call for it, with the
  raw line's trailing whitespace and every sequence removed and no ESC left. (Whitespace
  inside the text stays, also at the end of the text before a final sequence.)
\<close>

theorem clean_line_chunks:
  assumes "list_all well_formed cs" and "list_all is_space ws"
    and "rstrip (concat (map render cs)) = concat (map render cs)"
    and "concat (map render cs) @ ws \<noteq> []"
    and "running s" and "process s = Some p"
  shows "clean_line (concat (map render cs) @ ws) = concat (map plain cs)
       \<and> 27 \<notin> set (clean_line (concat (map render cs) @ ws))
       \<and> read_output [Readline (concat (map render cs) @ ws) poll] s =
           (after (Call_log (concat (map plain cs)) level_info) s, False)"
proof -
  have "clean_line (concat (map render cs) @ ws) = ansi_sub (concat (map render cs))"
    using assms(2,3) by (simp add: clean_line_def rstrip_append_spaces)
  also have "\<dots> = concat (map plain cs)"
    using ansi_sub_chunks [OF assms(1), of "[]"] by simp
  finally have eq: "clean_line (concat (map render cs) @ ws) = concat (map plain cs)" .
  have "27 \<notin> set (concat (map plain cs))"
    using assms(1) by (auto simp: list_all_iff dest: plain_no_esc)
  moreover have "read_output [Readline (concat (map render cs) @ ws) poll] s =
      (after (Call_log (clean_line (concat (map render cs) @ ws)) level_info) s, False)"
    using assms(4,5,6) by (simp add: after_def del: append_is_Nil_conv)
  ultimately show ?thesis using eq by simp
qed

theorem clean_line_chunks_witness:
  "list_all well_formed error_chunks \<and> list_all is_space [10]
   \<and> rstrip (concat (map render error_chunks)) = concat (map render error_chunks)
   \<and> concat (map render error_chunks) = [27, 91, 51, 49, 109] @ asc ''ERROR'' @ [27, 91, 48, 109]
   \<and> concat (map plain error_chunks) = asc ''ERROR''
   \<and> clean_line (concat (map render error_chunks) @ [10]) = concat (map plain error_chunks)
   \<and> 27 \<notin> set (clean_line (concat (map render error_chunks) @ [10]))
   \<and> read_output [Readline (concat (map render error_chunks) @ [10]) None] recording_gui =
       (after (Call_log (concat (map plain error_chunks)) level_info) recording_gui, False)"
proof -
  have ne: "concat (map render error_chunks) @ [10] \<noteq> []" by simp
  have r: "running recording_gui"
    by (simp add: recording_gui_def operations steps init_gui_def linux_env_def)
  have c: "concat (map render error_chunks) = [27, 91, 51, 49, 109] @ asc ''ERROR'' @ [27, 91, 48, 109]"
    by (simp add: error_chunks_def asc_def)
  have d: "concat (map plain error_chunks) = asc ''ERROR''"
    by (simp add: error_chunks_def)
  from clean_line_chunks [OF error_chunks_well_formed newline_is_space error_chunks_rstrip ne r
      recording_gui_process, of None]
  show ?thesis
    using error_chunks_well_formed newline_is_space error_chunks_rstrip c d by blast
qed

section \<open>The stop protocol\<close>



lemma linux_env_completes: "stop_completes linux_env"
  by (simp add: stop_completes_def linux_env_def)





section \<open>A second stop during a stop\<close>

text \<open>
  C8, as the code has it. The claim as stated fails: the code has no "stopping already in
  progress" condition. A second \<open>stop_recording\<close> that arrives after the first has called
  \<open>terminate\<close> and before it has cleared the handle shows no dialog, calls \<open>terminate\<close>
  on the same process again and, when its own wait times out, calls \<open>kill\<close>.
\<close>

theorem stop_recording_twice_counterexample:
  "process stopping_gui = Some (Popen 4242)
   \<and> filter is_terminate (trace stopping_gui) = [Terminate_call (Popen 4242)]
   \<and> filter is_terminate (trace (stop_recording win_env stopping_gui)) =
       [Terminate_call (Popen 4242), Terminate_call (Popen 4242)]
   \<and> filter is_kill (trace (stop_recording win_env stopping_gui)) = [Kill_call (Popen 4242)]
   \<and> filter is_dialog (trace (stop_recording win_env stopping_gui)) = []"
  by (simp add: stopping_gui_def recording_gui_def operations steps init_gui_def
      linux_env_def win_env_def)

text \<open>
  C8, amended. In every state in which a stop is in flight (\<open>stop_signal\<close> has run on the
  stored process \<open>p\<close>, which is not yet cleared), a second \<open>stop_recording\<close> is not
  rejected: it shows no warning, announces the stop again and calls \<open>terminate\<close> on \<open>p\<close>
  again; when its wait times out it calls \<open>kill\<close> on \<open>p\<close>. The only guard of
  \<open>stop_recording\<close> is the missing handle.
\<close>

theorem stop_recording_reenters:
  assumes "process s = Some p"
  shows "process (stop_signal e p s) = Some p
       \<and> filter is_terminate (new_events s (stop_signal e p s)) = [Terminate_call p]
       \<and> take 3 (new_events (stop_signal e p s) (stop_recording e' (stop_signal e p s))) =
           [Log_call separator level_info,
            Log_call (asc ''['' @ clock e' (ticks s + 4) @ text_stopping) level_info,
            Terminate_call p]
       \<and> filter is_warning
            (new_events (stop_signal e p s) (stop_recording e' (stop_signal e p s))) = []
       \<and> (stop_completes e' \<and> wait_result e' = Timeout_expired \<longrightarrow>
            filter is_kill
              (new_events (stop_signal e p s) (stop_recording e' (stop_signal e p s))) =
              [Kill_call p])"
  using assms
  by (cases "terminate_result e'"; cases "wait_result e'"; cases "kill_result e'";
      simp add: stop_completes_def operations steps new_events_def;
      simp add: eval_nat_numeral)

theorem stop_recording_reenters_witness:
  "process recording_gui = Some (Popen 4242)
   \<and> stop_completes win_env \<and> wait_result win_env = Timeout_expired
   \<and> process stopping_gui = Some (Popen 4242)
   \<and> filter is_terminate (new_events recording_gui stopping_gui) = [Terminate_call (Popen 4242)]
   \<and> take 3 (new_events stopping_gui (stop_recording win_env stopping_gui)) =
       [Log_call separator level_info,
        Log_call (asc ''['' @ clock win_env (ticks recording_gui + 4) @ text_stopping) level_info,
        Terminate_call (Popen 4242)]
   \<and> filter is_warning (new_events stopping_gui (stop_recording win_env stopping_gui)) = []
   \<and> filter is_kill (new_events stopping_gui (stop_recording win_env stopping_gui)) =
       [Kill_call (Popen 4242)]"
proof -
  have w: "stop_completes win_env" "wait_result win_env = Timeout_expired"
    by (simp_all add: stop_completes_def win_env_def)
  from stop_recording_reenters [OF recording_gui_process, of linux_env win_env]
  show ?thesis using recording_gui_process w by (simp add: stopping_gui_def)
qed

section \<open>The interpreter\<close>

text \<open>
  C9, as the code has it. The claim as stated fails off Windows: on a Linux host on which
  every path exists, the project's own interpreter included, \<open>start_recording\<close> launches
  \<open>sys.executable\<close>.
\<close>

theorem python_exe_counterexample:
  "platform linux_env = asc ''linux''
   \<and> path_exists linux_env (path_join linux_env app_dir [asc ''venv'', asc ''bin'', asc ''python''])
   \<and> path_exists linux_env (venv_python linux_env (init_gui app_dir))
   \<and> python_exe linux_env (init_gui app_dir) = sys_executable linux_env
   \<and> take 1 (new_events (init_gui app_dir) (start_recording linux_env (init_gui app_dir))) =
       [Popen_call [asc ''/usr/bin/python3'', asc ''/app/main.py''] (asc ''/app'')]"
  by (simp add: operations steps new_events_def init_gui_def linux_env_def app_dir_def asc_def)

text \<open>
  C9, amended. Every \<open>start_recording\<close> without a stored process launches, as its first
  action, the interpreter chosen so: on \<open>win32\<close> the project's
  \<open>venv\Scripts\python.exe\<close> when that file exists and \<open>sys.executable\<close> otherwise; on
  every other platform \<open>sys.executable\<close>, whatever exists in the project.
\<close>

theorem start_recording_interpreter:
  assumes "process s = None"
  shows "python_exe e s =
           (if platform e = asc ''win32'' \<and> path_exists e (venv_python e s)
            then venv_python e s else sys_executable e)
       \<and> take 1 (new_events s (start_recording e s)) =
           [Popen_call [python_exe e s, path_join e (script_dir s) [asc ''main.py'']]
              (script_dir s)]"
  using assms
  by (cases "popen_result e")
     (simp_all add: start_recording_def python_exe_def steps new_events_def)

theorem start_recording_interpreter_witness:
  "process (init_gui app_dir) = None
   \<and> python_exe win_env (init_gui app_dir) =
       (if platform win_env = asc ''win32'' \<and> path_exists win_env (venv_python win_env (init_gui app_dir))
        then venv_python win_env (init_gui app_dir) else sys_executable win_env)
   \<and> take 1 (new_events (init_gui app_dir) (start_recording win_env (init_gui app_dir))) =
       [Popen_call [python_exe win_env (init_gui app_dir),
          path_join win_env (script_dir (init_gui app_dir)) [asc ''main.py'']]
          (script_dir (init_gui app_dir))]
   \<and> python_exe win_env (init_gui app_dir) = venv_python win_env (init_gui app_dir)"
proof -
  have v: "python_exe win_env (init_gui app_dir) = venv_python win_env (init_gui app_dir)"
    by (simp add: python_exe_def win_env_def)
  from start_recording_interpreter [OF init_gui_process, of win_env app_dir]
  show ?thesis using init_gui_process [of app_dir] v by blast
qed

section \<open>The relay\<close>

lemma read_output_keeps:
  assumes "running s" and "process s = Some p" and "list_all keeps_reading pre"
  shows "read_output (pre @ rest) s =
         read_output rest (s\<lparr>after_queue := after_queue s @ map content_log (relayed pre)\<rparr>)"
  using assms
proof (induction pre arbitrary: s)
  case Nil
  then show ?case by simp
next
  case (Cons ev pre)
  show ?case
  proof (cases ev)
    case (Readline line poll)
    with Cons.prems Cons.IH [of "after (content_log (clean_line line)) s"] Cons.IH [of s]
    show ?thesis by (auto simp: after_def content_log_def)
  next
    case (Read_raises err)
    with Cons.prems show ?thesis by simp
  qed
qed

lemma content_not_error: "filter is_error_log (map content_log ls) = []"
  by (induction ls) (simp_all add: content_log_def level_info_def level_error_def asc_def)

text \<open>
  C7. When the body of the relay's loop raises, after any number of turns that kept the
  loop going, the loop ends having queued exactly one \<open>_log\<close> call of level "error" with
  the text "error reading the output: " and the exception's text. The relay writes
  nothing but the callback queue: the handle, the process id, the running flag, the status
  label and the trace are untouched, and running the queued call only appends the
  \<open>[ERROR]\<close> line to the log.
\<close>

theorem read_output_error:
  assumes "running s" and "process s = Some p" and "list_all keeps_reading pre"
  shows "read_output (pre @ Read_raises err # post) s =
           (s\<lparr>after_queue := after_queue s @ map content_log (relayed pre) @
                [Call_log (text_read_error @ err) level_error]\<rparr>, True)
       \<and> filter is_error_log
            (drop (length (after_queue s))
               (after_queue (fst (read_output (pre @ Read_raises err # post) s)))) =
           [Call_log (text_read_error @ err) level_error]
       \<and> process (fst (read_output (pre @ Read_raises err # post) s)) = process s
       \<and> process_pid (fst (read_output (pre @ Read_raises err # post) s)) = process_pid s
       \<and> running (fst (read_output (pre @ Read_raises err # post) s)) = running s
       \<and> status_label (fst (read_output (pre @ Read_raises err # post) s)) = status_label s
       \<and> trace (fst (read_output (pre @ Read_raises err # post) s)) = trace s
       \<and> log_text (run_callback e (Call_log (text_read_error @ err) level_error) u) =
           log_text u @
           [(asc ''['' @ clock e (ticks u) @ asc ''] [ERROR] '' @ text_read_error @ err @ [10],
             tag_error)]
       \<and> process (run_callback e (Call_log (text_read_error @ err) level_error) u) = process u
       \<and> process_pid (run_callback e (Call_log (text_read_error @ err) level_error) u) = process_pid u
       \<and> running (run_callback e (Call_log (text_read_error @ err) level_error) u) = running u
       \<and> status_label (run_callback e (Call_log (text_read_error @ err) level_error) u) = status_label u"
proof -
  have "read_output (pre @ Read_raises err # post) s =
           (s\<lparr>after_queue := after_queue s @ map content_log (relayed pre) @
                [Call_log (text_read_error @ err) level_error]\<rparr>, True)"
    using assms by (simp add: read_output_keeps [OF assms] after_def)
  then show ?thesis
    by (simp add: content_not_error steps display_text_def tag_of_def)
qed

theorem read_output_error_witness:
  "running recording_gui \<and> process recording_gui = Some (Popen 4242)
   \<and> list_all keeps_reading sample_reads
   \<and> read_output (sample_reads @ Read_raises (asc ''boom'') # []) recording_gui =
       (recording_gui\<lparr>after_queue := after_queue recording_gui @
            map content_log (relayed sample_reads) @
            [Call_log (text_read_error @ asc ''boom'') level_error]\<rparr>, True)
   \<and> relayed sample_reads = [asc ''hello'']
   \<and> process (fst (read_output (sample_reads @ Read_raises (asc ''boom'') # []) recording_gui)) =
       process recording_gui
   \<and> running (fst (read_output (sample_reads @ Read_raises (asc ''boom'') # []) recording_gui)) =
       running recording_gui
   \<and> status_label (fst (read_output (sample_reads @ Read_raises (asc ''boom'') # []) recording_gui)) =
       status_label recording_gui"
proof -
  have r: "relayed sample_reads = [asc ''hello'']"
    by (simp add: sample_reads_def clean_line_def rstrip_def is_space_def is_param_def asc_def)
  from read_output_error [OF recording_gui_running recording_gui_process sample_reads_keep,
      of "asc ''boom''" "[]" linux_env recording_gui]
  show ?thesis
    using recording_gui_running recording_gui_process sample_reads_keep r by blast
qed

section \<open>The child ends on its own\<close>

lemma fold_content_logs:
  "trace (fold (run_callback e) (map content_log ls) u) =
     trace u @ map (\<lambda>l. Log_call l level_info) ls
   \<and> ticks (fold (run_callback e) (map content_log ls) u) = ticks u + length ls
   \<and> process (fold (run_callback e) (map content_log ls) u) = process u
   \<and> process_pid (fold (run_callback e) (map content_log ls) u) = process_pid u
   \<and> running (fold (run_callback e) (map content_log ls) u) = running u
   \<and> status_label (fold (run_callback e) (map content_log ls) u) = status_label u
   \<and> system_tray (fold (run_callback e) (map content_log ls) u) = system_tray u"
proof (induction ls arbitrary: u)
  case Nil
  show ?case by simp
next
  case (Cons l ls)
  show ?case
    using Cons.IH [of "log e l level_info u"]
    by (simp add: content_log_def steps)
qed

lemma label_texts_logs:
  "label_texts (map (\<lambda>l. Log_call l level_info) ls @ evs) = label_texts evs"
  by (induction ls) simp_all

lemma ended_not_stopped: "asc ''['' @ t1 @ text_ended \<noteq> asc ''['' @ t2 @ text_stopped"
proof
  assume "asc ''['' @ t1 @ text_ended = asc ''['' @ t2 @ text_stopped"
  then have "t1 @ text_ended = t2 @ text_stopped" by simp
  moreover have "length text_ended = length text_stopped"
    by (simp add: text_ended_def text_stopped_def)
  ultimately have "text_ended = text_stopped" by simp
  then show False by (simp add: text_ended_def text_stopped_def)
qed

text \<open>
  C5. When, with a process stored and running and no stop requested, the relay meets an
  empty read with the child no longer alive (after any number of turns that kept the
  loop going), the loop ends having queued \<open>_process_ended\<close> once. Dispatching the queue
  then clears the handle, the process id and the running flag, sets the status label
  straight to "not running" (its only change), and logs, after the relayed lines, one
  "the recording process has ended" line between two separators. That line differs from
  the "has stopped" line of \<open>stop_recording\<close> whatever the time stamps.
\<close>

theorem process_exit_detected:
  assumes "running s" and "process s = Some p" and "after_queue s = []"
    and "list_all keeps_reading pre"
  shows "read_output (pre @ Readline [] (Some code) # post) s =
           (s\<lparr>after_queue := map content_log (relayed pre) @ [Call_process_ended]\<rparr>, True)
       \<and> new_events s (run [(e', Relay (pre @ Readline [] (Some code) # post)), (e, Dispatch)] s) =
           map (\<lambda>l. Log_call l level_info) (relayed pre) @
           [Label_config label_not_running fg_not_running,
            Status_var_set (not_running_bar s),
            Log_call separator level_info,
            Log_call (asc ''['' @ clock e (ticks s + length (relayed pre) + 1) @ text_ended)
              level_info,
            Log_call separator level_info]
       \<and> observed_status s
            (run [(e', Relay (pre @ Readline [] (Some code) # post)), (e, Dispatch)] s) =
           [fst (status_label s), label_not_running]
       \<and> process (run [(e', Relay (pre @ Readline [] (Some code) # post)), (e, Dispatch)] s) = None
       \<and> process_pid (run [(e', Relay (pre @ Readline [] (Some code) # post)), (e, Dispatch)] s) = None
       \<and> running (run [(e', Relay (pre @ Readline [] (Some code) # post)), (e, Dispatch)] s) = False
       \<and> status_label (run [(e', Relay (pre @ Readline [] (Some code) # post)), (e, Dispatch)] s) =
           (label_not_running, fg_not_running)
       \<and> asc ''['' @ t1 @ text_ended \<noteq> asc ''['' @ t2 @ text_stopped"
proof -
  let ?evs = "pre @ Readline [] (Some code) # post"
  let ?q = "map content_log (relayed pre)"
  have ro: "read_output ?evs s = (s\<lparr>after_queue := ?q @ [Call_process_ended]\<rparr>, True)"
    using assms by (simp add: read_output_keeps [OF assms(1,2,4)] after_def)
  let ?u = "fold (run_callback e) ?q (s\<lparr>after_queue := []\<rparr>)"
  have run_eq: "run [(e', Relay ?evs), (e, Dispatch)] s = process_ended e ?u"
    by (simp add: run_def ro mainloop_def)
  note f = fold_content_logs [of e "relayed pre" "s\<lparr>after_queue := []\<rparr>"]
  have ne: "new_events s (process_ended e ?u) =
           map (\<lambda>l. Log_call l level_info) (relayed pre) @
           [Label_config label_not_running fg_not_running,
            Status_var_set (not_running_bar s),
            Log_call separator level_info,
            Log_call (asc ''['' @ clock e (ticks s + length (relayed pre) + 1) @ text_ended)
              level_info,
            Log_call separator level_info]"
    using f by (simp add: process_ended_def steps new_events_def not_running_bar_def)
  have fields: "process (process_ended e ?u) = None" "process_pid (process_ended e ?u) = None"
    "running (process_ended e ?u) = False"
    "status_label (process_ended e ?u) = (label_not_running, fg_not_running)"
    by (simp_all add: process_ended_def steps)
  have obs: "observed_status s (process_ended e ?u) = [fst (status_label s), label_not_running]"
    by (simp add: observed_status_def ne label_texts_logs)
  show ?thesis
    using ro ne obs fields ended_not_stopped by (simp only: run_eq simp_thms)
qed

theorem process_exit_detected_witness:
  "running recording_gui \<and> process recording_gui = Some (Popen 4242)
   \<and> after_queue recording_gui = [] \<and> list_all keeps_reading sample_reads
   \<and> read_output (sample_reads @ Readline [] (Some 0) # []) recording_gui =
       (recording_gui\<lparr>after_queue := map content_log (relayed sample_reads) @
            [Call_process_ended]\<rparr>, True)
   \<and> observed_status recording_gui
        (run [(linux_env, Relay (sample_reads @ Readline [] (Some 0) # [])), (linux_env, Dispatch)]
           recording_gui) =
       [fst (status_label recording_gui), label_not_running]
   \<and> process
        (run [(linux_env, Relay (sample_reads @ Readline [] (Some 0) # [])), (linux_env, Dispatch)]
           recording_gui) = None
   \<and> process_pid
        (run [(linux_env, Relay (sample_reads @ Readline [] (Some 0) # [])), (linux_env, Dispatch)]
           recording_gui) = None
   \<and> running
        (run [(linux_env, Relay (sample_reads @ Readline [] (Some 0) # [])), (linux_env, Dispatch)]
           recording_gui) = False"
  using process_exit_detected [OF recording_gui_running recording_gui_process
      recording_gui_queue sample_reads_keep, of 0 "[]" linux_env linux_env "[]" "[]"]
    recording_gui_running recording_gui_process recording_gui_queue sample_reads_keep
  by blast

section \<open>Handle, process id and running flag\<close>

lemma consistent_log: "consistent (log e m l s) = consistent s"
  by (simp add: consistent_def steps)

lemma consistent_start: "consistent s \<Longrightarrow> consistent (start_recording e s)"
  by (cases "popen_result e") (auto simp: consistent_def start_recording_def steps)

lemma consistent_stop: "consistent s \<Longrightarrow> consistent (stop_recording e s)"
  by (cases "process s"; cases "terminate_result e"; cases "wait_result e"; cases "kill_result e")
     (auto simp: consistent_def operations steps)

lemma consistent_ended: "consistent (process_ended e s)"
  by (simp add: consistent_def process_ended_def steps)

lemma read_output_fields:
  "process (fst (read_output evs s)) = process s
   \<and> process_pid (fst (read_output evs s)) = process_pid s
   \<and> running (fst (read_output evs s)) = running s"
proof (induction evs s rule: read_output.induct)
  case (1 s)
  show ?case by simp
next
  case (2 ev evs s)
  then show ?case
    by (cases ev) (auto simp: after_def)
qed

lemma consistent_relay: "consistent s \<Longrightarrow> consistent (fst (read_output evs s))"
  using read_output_fields [of evs s] by (simp add: consistent_def)

lemma consistent_callback: "consistent s \<Longrightarrow> consistent (run_callback e cb s)"
  by (cases cb) (simp_all add: consistent_ended consistent_log)

lemma consistent_callbacks: "consistent s \<Longrightarrow> consistent (fold (run_callback e) cbs s)"
  by (induction cbs arbitrary: s) (simp_all add: consistent_callback)

lemma consistent_mainloop: "consistent s \<Longrightarrow> consistent (mainloop e s)"
proof -
  assume "consistent s"
  then have "consistent (s\<lparr>after_queue := []\<rparr>)" by (simp add: consistent_def)
  then show ?thesis unfolding mainloop_def by (rule consistent_callbacks)
qed

lemma consistent_step: "consistent s \<Longrightarrow> consistent (step x s)"
proof (cases x)
  case (Pair e op)
  assume "consistent s"
  with Pair show ?thesis
    by (cases op)
       (simp_all add: consistent_start consistent_stop consistent_relay consistent_mainloop)
qed

lemma consistent_fold: "consistent s \<Longrightarrow> consistent (fold step ops s)"
  by (induction ops arbitrary: s) (simp_all add: consistent_step)

text \<open>
  C10. After every run of operations from the initial recorder (starts and stops,
  accepted, rejected or failed, stretches of the relay, and dispatches of the queued
  callbacks, \<open>_process_ended\<close> among them, whatever the world answers), the handle, the
  stored process id and the running flag are all set or all cleared.
\<close>

theorem handle_pid_running_consistent: "consistent (run ops (init_gui dir))"
proof -
  have "consistent (init_gui dir)" by (simp add: consistent_def init_gui_def)
  then show ?thesis unfolding run_def by (rule consistent_fold)
qed

theorem handle_pid_running_consistent_witness:
  "consistent (run [(linux_env, Start)] (init_gui app_dir))
   \<and> process (run [(linux_env, Start)] (init_gui app_dir)) = Some (Popen 4242)
   \<and> process_pid (run [(linux_env, Start)] (init_gui app_dir)) = Some 4242
   \<and> running (run [(linux_env, Start)] (init_gui app_dir))
   \<and> consistent (run [(linux_env, Start), (win_env, Stop)] (init_gui app_dir))
   \<and> process (run [(linux_env, Start), (win_env, Stop)] (init_gui app_dir)) = None
   \<and> process_pid (run [(linux_env, Start), (win_env, Stop)] (init_gui app_dir)) = None
   \<and> running (run [(linux_env, Start), (win_env, Stop)] (init_gui app_dir)) = False"
  using handle_pid_running_consistent [of "[(linux_env, Start)]" app_dir]
    handle_pid_running_consistent [of "[(linux_env, Start), (win_env, Stop)]" app_dir]
  by (simp add: run_def operations steps init_gui_def linux_env_def win_env_def)

section \<open>A start, then a stop\<close>

lemma label_texts_append: "label_texts (xs @ ys) = label_texts xs @ label_texts ys"
  by (induction xs rule: label_texts.induct) simp_all

lemma read_output_rest:
  "trace (fst (read_output evs s)) = trace s
   \<and> ticks (fst (read_output evs s)) = ticks s
   \<and> status_label (fst (read_output evs s)) = status_label s
   \<and> system_tray (fst (read_output evs s)) = system_tray s"
proof (induction evs s rule: read_output.induct)
  case (1 s)
  show ?case by simp
next
  case (2 ev evs s)
  then show ?case
    by (cases ev) (auto simp: after_def)
qed

lemma start_recording_started:
  assumes "process s = None" and "popen_result e = Inr q"
  shows "process (start_recording e s) = Some q
       \<and> running (start_recording e s)
       \<and> after_queue (start_recording e s) = after_queue s
       \<and> label_texts (new_events s (start_recording e s)) = [label_running]
       \<and> trace (start_recording e s) = trace s @ new_events s (start_recording e s)"
  using assms by (simp add: start_recording_def steps new_events_def)

lemma stop_recording_stopped:
  assumes "process s = Some p" and "stop_completes e"
  shows "after_queue (stop_recording e s) = after_queue s
       \<and> label_texts (new_events s (stop_recording e s)) = [label_not_running]
       \<and> trace (stop_recording e s) = trace s @ new_events s (stop_recording e s)"
  using assms
  by (cases "wait_result e")
     (simp_all add: stop_completes_def operations steps new_events_def)

lemma new_events_trans:
  assumes "trace s' = trace s @ new_events s s'" and "trace s'' = trace s' @ new_events s' s''"
  shows "new_events s s'' = new_events s s' @ new_events s' s''"
proof -
  have "trace s'' = trace s @ (new_events s s' @ new_events s' s'')"
    using assms by simp
  then show ?thesis unfolding new_events_def [of s s''] by simp
qed

lemma start_relay_stop:
  assumes "process s = None" and "popen_result e0 = Inr q" and "stop_completes e"
  shows "observed_status s (run [(e0, Start), (er, Relay evs), (e, Stop)] s) =
           [fst (status_label s), label_running, label_not_running]"
proof -
  let ?s1 = "start_recording e0 s"
  let ?s2 = "fst (read_output evs ?s1)"
  let ?s3 = "stop_recording e ?s2"
  note st = start_recording_started [OF assms(1,2)]
  have p2: "process ?s2 = Some q" using st read_output_fields [of evs ?s1] by simp
  have t2: "trace ?s2 = trace ?s1" using read_output_rest [of evs ?s1] by simp
  note sp = stop_recording_stopped [OF p2 assms(3)]
  have n12: "new_events s ?s2 = new_events s ?s1" by (simp add: new_events_def t2)
  have g2: "trace ?s2 = trace s @ new_events s ?s2" using st t2 n12 by simp
  have "new_events s ?s3 = new_events s ?s2 @ new_events ?s2 ?s3"
    using g2 sp by (intro new_events_trans) simp_all
  then have "label_texts (new_events s ?s3) = [label_running, label_not_running]"
    using st sp n12 by (simp add: label_texts_append)
  moreover have "run [(e0, Start), (er, Relay evs), (e, Stop)] s = ?s3"
    by (simp add: run_def)
  ultimately show ?thesis by (simp add: observed_status_def)
qed

lemma dispatch_ended:
  assumes "after_queue s = map content_log ls @ [Call_process_ended]"
  shows "label_texts (new_events s (mainloop e s)) = [label_not_running]
       \<and> trace (mainloop e s) = trace s @ new_events s (mainloop e s)"
proof -
  let ?u = "fold (run_callback e) (map content_log ls) (s\<lparr>after_queue := []\<rparr>)"
  have m: "mainloop e s = process_ended e ?u"
    by (simp add: mainloop_def assms)
  have tu: "trace ?u = trace s @ map (\<lambda>l. Log_call l level_info) ls"
    using fold_content_logs [of e ls "s\<lparr>after_queue := []\<rparr>"] by simp
  have te: "trace (process_ended e ?u) =
      trace s @ map (\<lambda>l. Log_call l level_info) ls @
      [Label_config label_not_running fg_not_running,
       Status_var_set (status_var (process_ended e ?u)),
       Log_call separator level_info,
       Log_call (asc ''['' @ clock e (Suc (ticks ?u)) @ text_ended) level_info,
       Log_call separator level_info]"
    by (simp add: process_ended_def steps tu)
  show ?thesis
    unfolding m new_events_def by (simp add: te label_texts_logs)
qed

lemma start_relay_stop_dispatch:
  assumes "process s = None" and "popen_result e0 = Inr q" and "stop_completes e"
    and "after_queue s = []" and "list_all keeps_reading pre"
  shows "observed_status s
           (run [(e0, Start), (er, Relay (pre @ Readline [] (Some code) # post)), (e, Stop),
                 (ed, Dispatch)] s) =
           [fst (status_label s), label_running, label_not_running, label_not_running]"
proof -
  let ?evs = "pre @ Readline [] (Some code) # post"
  let ?s1 = "start_recording e0 s"
  let ?s2 = "fst (read_output ?evs ?s1)"
  let ?s3 = "stop_recording e ?s2"
  let ?s4 = "mainloop ed ?s3"
  note st = start_recording_started [OF assms(1,2)]
  have r1: "running ?s1" and p1: "process ?s1 = Some q" using st by simp_all
  have q2: "after_queue ?s2 = map content_log (relayed pre) @ [Call_process_ended]"
    using st assms(4) by (simp add: read_output_keeps [OF r1 p1 assms(5)] after_def)
  have p2: "process ?s2 = Some q" using st read_output_fields [of ?evs ?s1] by simp
  have t2: "trace ?s2 = trace ?s1" using read_output_rest [of ?evs ?s1] by simp
  note sp = stop_recording_stopped [OF p2 assms(3)]
  have q3: "after_queue ?s3 = map content_log (relayed pre) @ [Call_process_ended]"
    using sp q2 by simp
  note dp = dispatch_ended [OF q3, of ed]
  have n12: "new_events s ?s2 = new_events s ?s1" by (simp add: new_events_def t2)
  have g2: "trace ?s2 = trace s @ new_events s ?s2" using st t2 n12 by simp
  have n3: "new_events s ?s3 = new_events s ?s2 @ new_events ?s2 ?s3"
    using g2 sp by (intro new_events_trans) simp_all
  have g3: "trace ?s3 = trace s @ new_events s ?s3" using g2 sp n3 by simp
  have "new_events s ?s4 = new_events s ?s3 @ new_events ?s3 ?s4"
    using g3 dp by (intro new_events_trans) simp_all
  then have "label_texts (new_events s ?s4) =
      [label_running, label_not_running, label_not_running]"
    using st sp dp n12 n3 by (simp add: label_texts_append)
  moreover have "run [(e0, Start), (er, Relay ?evs), (e, Stop), (ed, Dispatch)] s = ?s4"
    by (simp add: run_def)
  ultimately show ?thesis by (simp add: observed_status_def)
qed

lemma two_labels_log: "two_labels (log e m l s) = two_labels s"
  by (simp add: two_labels_def steps label_texts_append)

lemma two_labels_start: "two_labels s \<Longrightarrow> two_labels (start_recording e s)"
  by (cases "popen_result e")
     (auto simp: two_labels_def start_recording_def steps label_texts_append)

lemma two_labels_stop: "two_labels s \<Longrightarrow> two_labels (stop_recording e s)"
  by (cases "process s"; cases "terminate_result e"; cases "wait_result e"; cases "kill_result e")
     (auto simp: two_labels_def operations steps label_texts_append)

lemma two_labels_ended: "two_labels s \<Longrightarrow> two_labels (process_ended e s)"
  by (auto simp: two_labels_def process_ended_def steps label_texts_append)

lemma two_labels_relay: "two_labels s \<Longrightarrow> two_labels (fst (read_output evs s))"
  using read_output_rest [of evs s] by (simp add: two_labels_def)

lemma two_labels_callback: "two_labels s \<Longrightarrow> two_labels (run_callback e cb s)"
  by (cases cb) (simp_all add: two_labels_ended two_labels_log)

lemma two_labels_callbacks: "two_labels s \<Longrightarrow> two_labels (fold (run_callback e) cbs s)"
  by (induction cbs arbitrary: s) (simp_all add: two_labels_callback)

lemma two_labels_mainloop: "two_labels s \<Longrightarrow> two_labels (mainloop e s)"
proof -
  assume "two_labels s"
  then have "two_labels (s\<lparr>after_queue := []\<rparr>)" by (simp add: two_labels_def)
  then show ?thesis unfolding mainloop_def by (rule two_labels_callbacks)
qed

lemma two_labels_step: "two_labels s \<Longrightarrow> two_labels (step x s)"
proof (cases x)
  case (Pair e op)
  assume "two_labels s"
  with Pair show ?thesis
    by (cases op)
       (simp_all add: two_labels_start two_labels_stop two_labels_relay two_labels_mainloop)
qed

lemma two_labels_fold: "two_labels s \<Longrightarrow> two_labels (fold step ops s)"
  by (induction ops arbitrary: s) (simp_all add: two_labels_step)

lemma two_labels_run:
  "set (observed_status (init_gui dir) (run ops (init_gui dir))) \<subseteq>
     {label_not_running, label_running}"
proof -
  have "two_labels (init_gui dir)" by (simp add: two_labels_def init_gui_def)
  then have "two_labels (run ops (init_gui dir))" unfolding run_def by (rule two_labels_fold)
  then show ?thesis
    by (simp add: two_labels_def observed_status_def new_events_def init_gui_def)
qed

text \<open>
  C3, as the code has it. The claim as stated fails: the code has no "stopping" status.
  Over a start and a stop the status label shows "not running", "running", "not running";
  the stop is announced in the log only.
\<close>

theorem stop_recording_status_counterexample:
  "observed_status (init_gui app_dir) (stop_recording linux_env recording_gui) =
     [label_not_running, label_running, label_not_running]
   \<and> length (observed_status (init_gui app_dir) (stop_recording linux_env recording_gui)) = 3"
  by (simp add: recording_gui_def operations steps new_events_def observed_status_def
      init_gui_def linux_env_def)

text \<open>
  C3, amended. Every \<open>stop_recording\<close> on a stored process whose calls on the child
  return does, in this order: announce the stop in the log (the status is not changed),
  call \<open>terminate\<close>, call \<open>wait\<close> with a timeout of 3, call \<open>kill\<close> (and log it)
  only when the wait timed out, clear the handle, the process id and the running flag,
  set the status label to "not running", and log that the process has stopped.
  Consequently an observer of the status label over a successful start followed by such a
  stop, with or without a stretch of the relay between them, sees "not running" (the
  label before), "running", "not running"; when the relay met the end of the stream
  meanwhile, the later dispatch of its \<open>_process_ended\<close> sets "not running" once more.
  No run from the initial recorder ever shows a text other than these two: there is no
  "stopping" status.
\<close>

theorem stop_recording_protocol:
  assumes "process s = Some p" and "stop_completes e"
  shows "new_events s (stop_recording e s) =
           [Log_call separator level_info,
            Log_call (asc ''['' @ clock e (ticks s + 1) @ text_stopping) level_info,
            Terminate_call p, Wait_call p 3] @
           (if wait_result e = Timeout_expired
            then [Kill_call p, Log_call text_forced level_info] else []) @
           [Label_config label_not_running fg_not_running,
            Status_var_set (not_running_bar s),
            Log_call (asc ''['' @
                clock e (ticks s + (if wait_result e = Timeout_expired then 4 else 3)) @
                text_stopped) level_info,
            Log_call separator level_info]
       \<and> observed_status s (stop_recording e s) = [fst (status_label s), label_not_running]
       \<and> process (stop_recording e s) = None
       \<and> process_pid (stop_recording e s) = None
       \<and> running (stop_recording e s) = False
       \<and> status_label (stop_recording e s) = (label_not_running, fg_not_running)
       \<and> (process t = None \<and> popen_result es = Inr q \<longrightarrow>
            observed_status t (run [(es, Start), (e, Stop)] t) =
              [fst (status_label t), label_running, label_not_running]
          \<and> observed_status t (run [(es, Start), (er, Relay evs), (e, Stop)] t) =
              [fst (status_label t), label_running, label_not_running])
       \<and> (process t = None \<and> popen_result es = Inr q \<and> after_queue t = []
            \<and> list_all keeps_reading pre \<longrightarrow>
            observed_status t
              (run [(es, Start), (er, Relay (pre @ Readline [] (Some code) # post)), (e, Stop),
                    (ed, Dispatch)] t) =
              [fst (status_label t), label_running, label_not_running, label_not_running])
       \<and> set (observed_status (init_gui dir) (run ops (init_gui dir))) \<subseteq>
            {label_not_running, label_running}"
proof -
  have one: "new_events s (stop_recording e s) =
           [Log_call separator level_info,
            Log_call (asc ''['' @ clock e (ticks s + 1) @ text_stopping) level_info,
            Terminate_call p, Wait_call p 3] @
           (if wait_result e = Timeout_expired
            then [Kill_call p, Log_call text_forced level_info] else []) @
           [Label_config label_not_running fg_not_running,
            Status_var_set (not_running_bar s),
            Log_call (asc ''['' @
                clock e (ticks s + (if wait_result e = Timeout_expired then 4 else 3)) @
                text_stopped) level_info,
            Log_call separator level_info]
       \<and> observed_status s (stop_recording e s) = [fst (status_label s), label_not_running]
       \<and> process (stop_recording e s) = None
       \<and> process_pid (stop_recording e s) = None
       \<and> running (stop_recording e s) = False
       \<and> status_label (stop_recording e s) = (label_not_running, fg_not_running)"
    using assms
    by (cases "wait_result e";
        simp add: stop_completes_def operations steps new_events_def observed_status_def
          not_running_bar_def;
        simp add: eval_nat_numeral)
  have two: "observed_status t (run [(es, Start), (er, Relay evs), (e, Stop)] t) =
              [fst (status_label t), label_running, label_not_running]"
    if "process t = None" "popen_result es = Inr q" for evs
    using start_relay_stop [OF that assms(2)] .
  have plain: "run [(es, Start), (e, Stop)] t = run [(es, Start), (er, Relay []), (e, Stop)] t"
    by (simp add: run_def)
  have three: "observed_status t
              (run [(es, Start), (er, Relay (pre @ Readline [] (Some code) # post)), (e, Stop),
                    (ed, Dispatch)] t) =
              [fst (status_label t), label_running, label_not_running, label_not_running]"
    if "process t = None" "popen_result es = Inr q" "after_queue t = []"
      "list_all keeps_reading pre"
    using start_relay_stop_dispatch [OF that(1,2) assms(2) that(3,4)] .
  show ?thesis
    using one two three two_labels_run [of dir ops] by (simp only: plain simp_thms) blast
qed

theorem stop_recording_protocol_witness:
  "process recording_gui = Some (Popen 4242) \<and> stop_completes linux_env
   \<and> process (init_gui app_dir) = None \<and> popen_result linux_env = Inr (Popen 4242)
   \<and> after_queue (init_gui app_dir) = [] \<and> list_all keeps_reading sample_reads
   \<and> observed_status recording_gui (stop_recording linux_env recording_gui) =
       [fst (status_label recording_gui), label_not_running]
   \<and> process (stop_recording linux_env recording_gui) = None
   \<and> process_pid (stop_recording linux_env recording_gui) = None
   \<and> running (stop_recording linux_env recording_gui) = False
   \<and> status_label (stop_recording linux_env recording_gui) =
       (label_not_running, fg_not_running)
   \<and> observed_status (init_gui app_dir)
        (run [(linux_env, Start), (linux_env, Stop)] (init_gui app_dir)) =
       [fst (status_label (init_gui app_dir)), label_running, label_not_running]
   \<and> observed_status (init_gui app_dir)
        (run [(linux_env, Start), (linux_env, Relay sample_reads), (linux_env, Stop)]
           (init_gui app_dir)) =
       [fst (status_label (init_gui app_dir)), label_running, label_not_running]
   \<and> observed_status (init_gui app_dir)
        (run [(linux_env, Start),
              (linux_env, Relay (sample_reads @ Readline [] (Some 0) # [])),
              (linux_env, Stop), (linux_env, Dispatch)] (init_gui app_dir)) =
       [fst (status_label (init_gui app_dir)), label_running, label_not_running,
        label_not_running]"
proof -
  have p: "popen_result linux_env = Inr (Popen 4242)" by (simp add: linux_env_def)
  have q: "after_queue (init_gui app_dir) = []" by (simp add: init_gui_def)
  from stop_recording_protocol [OF recording_gui_process linux_env_completes,
      where t = "init_gui app_dir" and es = linux_env and q = "Popen 4242" and er = linux_env
        and evs = sample_reads and pre = sample_reads and code = 0 and post = "[]"
        and ed = linux_env]
  show ?thesis
    using recording_gui_process linux_env_completes init_gui_process [of app_dir] p q
      sample_reads_keep
    by blast
qed

end
